theory Spec2Isabelle
  imports Complex_Main "HOL-Library.Sublist"
begin

section \<open>Python strings\<close>

text \<open>
  A Python \<open>str\<close> is modelled as a \<open>string\<close>, a list of 8-bit characters read as the
  code points U+0000 to U+00FF. On that range \<open>str.isspace\<close> holds for the code points
  9 to 13, 28 to 32, 133 and 160, and \<open>str.lower\<close> adds 32 to the letters A to Z and to
  the code points 192 to 222 other than 215; every other character is left alone.
  The test \<open>needle in text\<close> on two strings is \<^const>\<open>sublist\<close>: the needle occurs
  as a contiguous block.
\<close>

definition str_isspace :: "char \<Rightarrow> bool" where
  "str_isspace c = (of_char c \<in> {9, 10, 11, 12, 13, 28, 29, 30, 31, 32, 133, 160 :: nat})"

definition lower_char :: "char \<Rightarrow> char" where
  "lower_char c =
     (let n = (of_char c :: nat)
      in if (65 \<le> n \<and> n \<le> 90) \<or> (192 \<le> n \<and> n \<le> 222 \<and> n \<noteq> 215)
         then char_of (n + 32) else c)"

definition str_lower :: "string \<Rightarrow> string" where
  "str_lower s = map lower_char s"

text \<open>\<open>s.strip()\<close>: whitespace is dropped at both ends.\<close>

definition str_strip :: "string \<Rightarrow> string" where
  "str_strip s = rev (dropWhile str_isspace (rev (dropWhile str_isspace s)))"

text \<open>
  \<open>s.split()\<close> without a separator: runs of whitespace separate the words, and no
  empty word is produced.
\<close>

function str_split :: "string \<Rightarrow> string list" where
  "str_split [] = []"
| "str_split (c # cs) =
     (if str_isspace c then str_split cs
      else (c # takeWhile (\<lambda>x. \<not> str_isspace x) cs)
             # str_split (dropWhile (\<lambda>x. \<not> str_isspace x) cs))"
  by pat_completeness auto
termination
  by (relation "measure length") (auto simp: less_Suc_eq_le length_dropWhile_le)

text \<open>\<open>sep.join(words)\<close>.\<close>

fun str_join :: "string \<Rightarrow> string list \<Rightarrow> string" where
  "str_join sep [] = []"
| "str_join sep [w] = w"
| "str_join sep (w # v # ws) = w @ sep @ str_join sep (v # ws)"

section \<open>Exceptions and the model service\<close>

text \<open>
  The exceptions that the code can meet, all of them subclasses of \<open>Exception\<close>:
  a failure of the model service (of \<open>generate_content\<close> or of reading \<open>response.text\<close>),
  an index out of range, a missing column label, and a column of the wrong length.
\<close>

datatype exn = ServiceError string | IndexError | KeyError string | ValueError

text \<open>
  What \<open>self.model.generate_content(prompt)\<close> followed by \<open>response.text\<close> gives:
  the text, or the exception raised.
\<close>

type_synonym response = "exn + string"

text \<open>
  The enricher object. The service behind \<open>self.model\<close> is opaque and may answer
  differently each time, so it is a transition function on a service state \<open>'m\<close>.
  \<open>api_delay\<close> is set to 5.0 by the constructor.
\<close>

record 'm GameDataEnricher =
  generate_content :: "'m \<Rightarrow> string \<Rightarrow> response \<times> 'm"
  api_delay :: real

text \<open>What can be observed of a run: each model call with its outcome, each pause.\<close>

datatype event = Generate string response | Sleep real

section \<open>Data frames\<close>

text \<open>
  A data frame has its column labels in order and its rows in order, each row holding
  one cell for each column. Cells are text. The row labels are the default ones,
  0, 1, 2, ... as \<open>read_csv\<close> makes them.
\<close>

record DataFrame =
  columns :: "string list"
  rows :: "string list list"

definition wf_frame :: "DataFrame \<Rightarrow> bool" where
  "wf_frame df = list_all (\<lambda>row. length row = length (columns df)) (rows df)"

text \<open>\<open>row[key]\<close> on a row of a frame with the given columns.\<close>

definition getitem :: "string list \<Rightarrow> string list \<Rightarrow> string \<Rightarrow> exn + string" where
  "getitem cols row key =
     (case map_of (zip cols row) key of None \<Rightarrow> Inl (KeyError key) | Some v \<Rightarrow> Inr v)"

text \<open>
  \<open>df[key] = values\<close> with a list on the right: the list must have one value for each
  row; a column that carries the label already is overwritten where it stands, and
  otherwise a new column is added on the right.
\<close>

definition setitem :: "DataFrame \<Rightarrow> string \<Rightarrow> string list \<Rightarrow> exn + DataFrame" where
  "setitem df key vals =
     (if length vals \<noteq> length (rows df) then Inl ValueError
      else if key \<in> set (columns df)
      then Inr (df\<lparr>rows :=
                  map2 (\<lambda>row v. map2 (\<lambda>c x. if c = key then v else x) (columns df) row)
                    (rows df) vals\<rparr>)
      else Inr (df\<lparr>columns := columns df @ [key],
                   rows := map2 (\<lambda>row v. row @ [v]) (rows df) vals\<rparr>))"

text \<open>
  The state of a run: the state of the model service, the events so far, and the
  store of data frame objects by reference (the caller and the enricher share the
  frame that is passed in).
\<close>

record 'm world =
  service :: 'm
  trace :: "event list"
  frames :: "nat \<Rightarrow> DataFrame"

section \<open>The three queries\<close>

definition nl :: string where
  "nl = [CHR 0x0A]"

definition dq :: string where
  "dq = [CHR 0x22]"

definition genre_prompt :: "string \<Rightarrow> string" where
  "genre_prompt game_title =
     nl @ ''        Classify the video game '' @ dq @ game_title @ dq
        @ '' into ONE single-word genre.''
   @ nl @ ''        Choose from: Action, RPG, Sports, Strategy, Simulation, Adventure, ''
   @ nl @ ''        Puzzle, Racing, Fighting, Horror, Platformer, Shooter, MMORPG, Sandbox, Card''
   @ nl @ ''        ''
   @ nl @ ''        Respond with ONLY the genre word, nothing else.''
   @ nl @ ''        ''
   @ nl @ ''        Game: '' @ game_title
   @ nl @ ''        Genre:''
   @ nl @ ''        ''"

definition description_prompt :: "string \<Rightarrow> string" where
  "description_prompt game_title =
     nl @ ''        Write a short description for the video game '' @ dq @ game_title @ dq
        @ ''.''
   @ nl @ ''        The description must be under 30 words.''
   @ nl @ ''        Be concise and focus on the core gameplay and unique features.''
   @ nl @ ''        Do not include the game title in the description.''
   @ nl @ ''        ''
   @ nl @ ''        Game: '' @ game_title
   @ nl @ ''        Description:''
   @ nl @ ''        ''"

definition player_mode_prompt :: "string \<Rightarrow> string" where
  "player_mode_prompt game_title =
     nl @ ''        Determine the player mode for the video game '' @ dq @ game_title @ dq
        @ ''.''
   @ nl @ ''        ''
   @ nl @ ''        Respond with ONLY ONE of these three options:''
   @ nl @ ''        - Singleplayer (if the game is primarily single-player only)''
   @ nl @ ''        - Multiplayer (if the game is primarily multiplayer only)''
   @ nl @ ''        - Both (if the game supports both single-player and multiplayer modes)''
   @ nl @ ''        ''
   @ nl @ ''        Game: '' @ game_title
   @ nl @ ''        Player Mode:''
   @ nl @ ''        ''"

text \<open>The call itself: the service moves on and the call is recorded with its outcome.\<close>

definition call_model :: "'m GameDataEnricher \<Rightarrow> string \<Rightarrow> 'm world \<Rightarrow> response \<times> 'm world" where
  "call_model e prompt w =
     (let (r, m') = generate_content e (service w) prompt
      in (r, w\<lparr>service := m', trace := trace w @ [Generate prompt r]\<rparr>))"

text \<open>\<open>time.sleep(d)\<close>.\<close>

definition sleep :: "real \<Rightarrow> 'm world \<Rightarrow> 'm world" where
  "sleep d w = w\<lparr>trace := trace w @ [Sleep d]\<rparr>"

subsection \<open>Genre\<close>

text \<open>
  The body of the \<open>try\<close> block of \<open>classify_genre\<close> after the call, on the text of the
  response. \<open>genre.split()[0]\<close> raises \<open>IndexError\<close> on an empty list.
\<close>

definition normalize_genre :: "string \<Rightarrow> exn + string" where
  "normalize_genre text =
     (let genre = str_strip text
      in if sublist '' '' genre
         then (case str_split genre of [] \<Rightarrow> Inl IndexError | g # _ \<Rightarrow> Inr g)
         else Inr genre)"

text \<open>The \<open>try\<close> statement as a whole: any exception gives \<open>"Unknown"\<close>.\<close>

definition genre_of_response :: "response \<Rightarrow> string" where
  "genre_of_response r =
     (case r of
        Inl ex \<Rightarrow> ''Unknown''
      | Inr text \<Rightarrow> (case normalize_genre text of Inl ex \<Rightarrow> ''Unknown'' | Inr genre \<Rightarrow> genre))"

definition classify_genre :: "'m GameDataEnricher \<Rightarrow> string \<Rightarrow> 'm world \<Rightarrow> string \<times> 'm world" where
  "classify_genre e game_title w =
     (let (r, w') = call_model e (genre_prompt game_title) w in (genre_of_response r, w'))"

subsection \<open>Description\<close>

definition normalize_description :: "string \<Rightarrow> string" where
  "normalize_description text =
     (let description = str_strip text;
          words = str_split description
      in if length words > 30 then str_join '' '' (take 29 words) @ ''.'' else description)"

definition description_of_response :: "response \<Rightarrow> string" where
  "description_of_response r =
     (case r of
        Inl ex \<Rightarrow> ''A video game experience.''
      | Inr text \<Rightarrow> normalize_description text)"

definition generate_description :: "'m GameDataEnricher \<Rightarrow> string \<Rightarrow> 'm world \<Rightarrow> string \<times> 'm world" where
  "generate_description e game_title w =
     (let (r, w') = call_model e (description_prompt game_title) w
      in (description_of_response r, w'))"

subsection \<open>Player mode\<close>

definition valid_modes :: "string list" where
  "valid_modes = [''Singleplayer'', ''Multiplayer'', ''Both'']"

definition normalize_player_mode :: "string \<Rightarrow> string" where
  "normalize_player_mode text =
     (let mode = str_strip text
      in if sublist ''single'' (str_lower mode) then ''Singleplayer''
         else if sublist ''multi'' (str_lower mode) \<and> \<not> sublist ''both'' (str_lower mode)
         then ''Multiplayer''
         else if sublist ''both'' (str_lower mode) then ''Both''
         else if mode \<in> set valid_modes then mode
         else ''Both'')"

definition player_mode_of_response :: "response \<Rightarrow> string" where
  "player_mode_of_response r =
     (case r of Inl ex \<Rightarrow> ''Both'' | Inr text \<Rightarrow> normalize_player_mode text)"

definition determine_player_mode :: "'m GameDataEnricher \<Rightarrow> string \<Rightarrow> 'm world \<Rightarrow> string \<times> 'm world" where
  "determine_player_mode e game_title w =
     (let (r, w') = call_model e (player_mode_prompt game_title) w
      in (player_mode_of_response r, w'))"

text \<open>
  The function of the same contract with the comparison against \<open>valid_modes\<close> taken
  out: the three substring rules, then the default.
\<close>

definition normalize_player_mode_without_exact_match :: "string \<Rightarrow> string" where
  "normalize_player_mode_without_exact_match text =
     (let mode = str_strip text
      in if sublist ''single'' (str_lower mode) then ''Singleplayer''
         else if sublist ''multi'' (str_lower mode) \<and> \<not> sublist ''both'' (str_lower mode)
         then ''Multiplayer''
         else if sublist ''both'' (str_lower mode) then ''Both''
         else ''Both'')"

section \<open>The loop over the rows\<close>

text \<open>
  One pass of the body of \<open>for idx, row in df.iterrows()\<close> for each row, with the three
  lists that the body appends to. A \<open>KeyError\<close> from \<open>row['game_title']\<close> is not caught
  in \<open>process_dataframe\<close> and ends it. The progress lines go to the standard output
  only and are left out.
\<close>

type_synonym answers = "string list \<times> string list \<times> string list"

fun process_rows ::
  "'m GameDataEnricher \<Rightarrow> string list \<Rightarrow> string list list \<Rightarrow> answers \<Rightarrow> 'm world
     \<Rightarrow> (exn + answers) \<times> 'm world" where
  "process_rows e cols [] acc w = (Inr acc, w)"
| "process_rows e cols (row # rest) (genres, descriptions, player_modes) w =
     (case getitem cols row ''game_title'' of
        Inl ex \<Rightarrow> (Inl ex, w)
      | Inr game_title \<Rightarrow>
          (let (genre, w1) = classify_genre e game_title w;
               w2 = sleep (api_delay e) w1;
               (description, w3) = generate_description e game_title w2;
               w4 = sleep (api_delay e) w3;
               (player_mode, w5) = determine_player_mode e game_title w4;
               w6 = sleep (api_delay e) w5
           in process_rows e cols rest
                (genres @ [genre], descriptions @ [description], player_modes @ [player_mode])
                w6))"

text \<open>
  \<open>process_dataframe(df)\<close>: \<open>df\<close> is a reference; the three assignments write to the
  frame behind it, and the reference itself is returned.
\<close>

definition assign_column :: "nat \<Rightarrow> string \<Rightarrow> string list \<Rightarrow> 'm world \<Rightarrow> (exn + unit) \<times> 'm world" where
  "assign_column df key vals w =
     (case setitem (frames w df) key vals of
        Inl ex \<Rightarrow> (Inl ex, w)
      | Inr d \<Rightarrow> (Inr (), w\<lparr>frames := (frames w)(df := d)\<rparr>))"

definition process_dataframe :: "'m GameDataEnricher \<Rightarrow> nat \<Rightarrow> 'm world \<Rightarrow> (exn + nat) \<times> 'm world" where
  "process_dataframe e df w =
     (case process_rows e (columns (frames w df)) (rows (frames w df)) ([], [], []) w of
        (Inl ex, w') \<Rightarrow> (Inl ex, w')
      | (Inr (genres, descriptions, player_modes), w') \<Rightarrow>
          (case assign_column df ''genre'' genres w' of
             (Inl ex, w1) \<Rightarrow> (Inl ex, w1)
           | (Inr _, w1) \<Rightarrow>
               (case assign_column df ''short_description'' descriptions w1 of
                  (Inl ex, w2) \<Rightarrow> (Inl ex, w2)
                | (Inr _, w2) \<Rightarrow>
                    (case assign_column df ''player_mode'' player_modes w2 of
                       (Inl ex, w3) \<Rightarrow> (Inl ex, w3)
                     | (Inr _, w3) \<Rightarrow> (Inr df, w3)))))"

section \<open>Describing a run\<close>

text \<open>
  The events of one row, given the outcomes of its three calls, and the same without
  the outcomes: a prompt sent (\<open>Inl\<close>) or a pause (\<open>Inr\<close>).
\<close>

definition row_events :: "real \<Rightarrow> string \<Rightarrow> response \<times> response \<times> response \<Rightarrow> event list" where
  "row_events d game_title outs =
     (case outs of (r1, r2, r3) \<Rightarrow>
        [Generate (genre_prompt game_title) r1, Sleep d,
         Generate (description_prompt game_title) r2, Sleep d,
         Generate (player_mode_prompt game_title) r3, Sleep d])"

fun step_of :: "event \<Rightarrow> string + real" where
  "step_of (Generate prompt r) = Inl prompt"
| "step_of (Sleep d) = Inr d"

definition row_steps :: "real \<Rightarrow> string \<Rightarrow> (string + real) list" where
  "row_steps d game_title =
     [Inl (genre_prompt game_title), Inr d,
      Inl (description_prompt game_title), Inr d,
      Inl (player_mode_prompt game_title), Inr d]"

text \<open>
  A stub of the model service for the examples: it counts the calls and answers the first
  with \<open>"Strategy game."\<close>, fails on the second, and answers every later one with a
  sentence about both modes. Three small frames: one row and a further column, one row
  and a column \<open>genre\<close> already there, and no row at all.
\<close>

definition stub_enricher :: "nat GameDataEnricher" where
  "stub_enricher =
     \<lparr>generate_content =
        (\<lambda>m prompt. (if m = 0 then Inr ''Strategy game.''
                      else if m = 1 then Inl (ServiceError ''quota'')
                      else Inr ''This game supports both single-player campaign and online multiplayer'',
                      m + 1)),
      api_delay = 5\<rparr>"

definition chess_frame :: DataFrame where
  "chess_frame = \<lparr>columns = [''game_title'', ''year''], rows = [[''Chess Master 3000'', ''1999'']]\<rparr>"

definition chess_world :: "nat world" where
  "chess_world = \<lparr>service = 0, trace = [], frames = (\<lambda>r. chess_frame)\<rparr>"

definition genre_frame :: DataFrame where
  "genre_frame = \<lparr>columns = [''game_title'', ''genre''], rows = [[''Chess Master 3000'', ''Board'']]\<rparr>"

definition genre_world :: "nat world" where
  "genre_world = \<lparr>service = 0, trace = [], frames = (\<lambda>r. genre_frame)\<rparr>"

definition empty_frame :: DataFrame where
  "empty_frame = \<lparr>columns = [''game_title''], rows = []\<rparr>"

definition empty_world :: "nat world" where
  "empty_world = \<lparr>service = 0, trace = [], frames = (\<lambda>r. empty_frame)\<rparr>"

section \<open>Facts about strings\<close>

lemma isspace_lower_char: "str_isspace (lower_char c) = str_isspace c"
proof -
  obtain n :: nat where n: "of_char c = n" by simp
  have lt: "n < 256" using n of_char_mod_256 [of c, where ?'a = nat]
    by (metis mod_less_divisor zero_less_numeral)
  show ?thesis
    using lt by (auto simp: str_isspace_def lower_char_def Let_def n)
qed

lemma lower_strip: "str_lower (str_strip s) = str_strip (str_lower s)"
proof -
  have c: "str_isspace \<circ> lower_char = str_isspace"
    by (rule ext) (simp add: isspace_lower_char)
  show ?thesis
    by (simp add: str_lower_def str_strip_def rev_map dropWhile_map c)
qed

lemma sublist_dropWhile_eq:
  assumes "w \<noteq> []" and "\<And>c. c \<in> set w \<Longrightarrow> \<not> P c"
  shows "sublist w (dropWhile P s) = sublist w s"
proof (induction s)
  case Nil
  show ?case by simp
next
  case (Cons c cs)
  show ?case
  proof (cases "P c")
    case True
    from assms obtain x xs where w: "w = x # xs" by (cases w) auto
    with assms(2) [of x] have "\<not> P x" by simp
    with True have "x \<noteq> c" by auto
    then have "\<not> prefix w (c # cs)" by (simp add: w)
    with True Cons show ?thesis by (simp add: sublist_Cons_right)
  next
    case False
    then show ?thesis by simp
  qed
qed

lemma sublist_strip:
  assumes "w \<noteq> []" and "\<And>c. c \<in> set w \<Longrightarrow> \<not> str_isspace c"
  shows "sublist w (str_strip s) = sublist w s"
proof -
  have r: "rev w \<noteq> []" "\<And>c. c \<in> set (rev w) \<Longrightarrow> \<not> str_isspace c"
    using assms by auto
  have "sublist w (str_strip s) = sublist (rev w) (dropWhile str_isspace (rev (dropWhile str_isspace s)))"
    by (simp add: str_strip_def sublist_rev_right)
  also have "\<dots> = sublist (rev w) (rev (dropWhile str_isspace s))"
    by (rule sublist_dropWhile_eq [OF r])
  also have "\<dots> = sublist w (dropWhile str_isspace s)"
    by (simp add: sublist_rev_right)
  also have "\<dots> = sublist w s"
    by (rule sublist_dropWhile_eq [OF assms])
  finally show ?thesis .
qed

lemma sublist_lower_strip:
  assumes "w \<noteq> []" and "\<And>c. c \<in> set w \<Longrightarrow> \<not> str_isspace c"
  shows "sublist w (str_lower (str_strip s)) = sublist w (str_lower s)"
  by (simp add: lower_strip sublist_strip [OF assms])

lemma single_lower_strip: "sublist ''single'' (str_lower (str_strip s)) = sublist ''single'' (str_lower s)"
  by (rule sublist_lower_strip) (auto simp: str_isspace_def)

lemma multi_lower_strip: "sublist ''multi'' (str_lower (str_strip s)) = sublist ''multi'' (str_lower s)"
  by (rule sublist_lower_strip) (auto simp: str_isspace_def)

lemma both_lower_strip: "sublist ''both'' (str_lower (str_strip s)) = sublist ''both'' (str_lower s)"
  by (rule sublist_lower_strip) (auto simp: str_isspace_def)

lemma split_dropWhile: "str_split (dropWhile str_isspace s) = str_split s"
  by (induction s) auto

lemma split_all_space: "list_all str_isspace ws \<Longrightarrow> str_split ws = []"
  by (induction ws) auto

lemma split_append_space:
  "list_all str_isspace ws \<Longrightarrow> str_split (s @ ws) = str_split s"
proof (induction s rule: str_split.induct)
  case 1
  then show ?case by (simp add: split_all_space)
next
  case (2 c cs)
  show ?case
  proof (cases "str_isspace c")
    case True
    with 2 show ?thesis by simp
  next
    case False
    show ?thesis
    proof (cases "list_all (\<lambda>x. \<not> str_isspace x) cs")
      case True
      then have a: "\<forall>x\<in>set cs. \<not> str_isspace x" by (simp add: list_all_iff)
      have tw: "takeWhile (\<lambda>x. \<not> str_isspace x) ws = []"
        using "2.prems" by (cases ws) auto
      have dw: "dropWhile (\<lambda>x. \<not> str_isspace x) ws = ws"
        using "2.prems" by (cases ws) auto
      from a have e1: "takeWhile (\<lambda>x. \<not> str_isspace x) (cs @ ws) = cs"
        by (simp add: tw)
      from a have e2: "dropWhile (\<lambda>x. \<not> str_isspace x) (cs @ ws) = ws"
        by (simp add: dw)
      from a have e3: "takeWhile (\<lambda>x. \<not> str_isspace x) cs = cs" by simp
      from a have e4: "dropWhile (\<lambda>x. \<not> str_isspace x) cs = []" by simp
      show ?thesis
        using False "2.prems" by (simp add: e1 e2 e3 e4 split_all_space)
    next
      case nall: False
      then obtain x where x: "x \<in> set cs" "str_isspace x" by (auto simp: list_all_iff)
      then have "takeWhile (\<lambda>x. \<not> str_isspace x) (cs @ ws) = takeWhile (\<lambda>x. \<not> str_isspace x) cs"
        by (auto simp: takeWhile_append1)
      moreover from x have "dropWhile (\<lambda>x. \<not> str_isspace x) (cs @ ws) = dropWhile (\<lambda>x. \<not> str_isspace x) cs @ ws"
        by (auto simp: dropWhile_append1)
      ultimately show ?thesis
        using False "2.IH"(2) "2.prems" by simp
    qed
  qed
qed

lemma split_strip: "str_split (str_strip s) = str_split s"
proof -
  let ?t = "dropWhile str_isspace s"
  have "?t = rev (dropWhile str_isspace (rev ?t)) @ rev (takeWhile str_isspace (rev ?t))"
    by (metis rev_append rev_rev_ident takeWhile_dropWhile_id)
  moreover have "list_all str_isspace (rev (takeWhile str_isspace (rev ?t)))"
    by (auto simp: list_all_iff dest: set_takeWhileD)
  ultimately have "str_split ?t = str_split (rev (dropWhile str_isspace (rev ?t)))"
    by (metis split_append_space)
  then show ?thesis by (simp add: str_strip_def split_dropWhile)
qed

lemma strip_ends:
  "str_strip s \<noteq> [] \<Longrightarrow> \<not> str_isspace (hd (str_strip s))"
proof -
  assume ne: "str_strip s \<noteq> []"
  let ?t = "dropWhile str_isspace s"
  have "?t = [] \<Longrightarrow> str_strip s = []"
    unfolding str_strip_def by (simp only: rev.simps dropWhile.simps)
  with ne have t: "?t \<noteq> []" by blast
  then have h: "\<not> str_isspace (hd ?t)" by (rule hd_dropWhile)
  have "?t = str_strip s @ rev (takeWhile str_isspace (rev ?t))"
    unfolding str_strip_def by (metis rev_append rev_rev_ident takeWhile_dropWhile_id)
  then have "hd ?t = hd (str_strip s)" using ne by (metis hd_append2)
  with h show ?thesis by simp
qed

lemma split_nonempty: "s \<noteq> [] \<Longrightarrow> \<not> str_isspace (hd s) \<Longrightarrow> str_split s \<noteq> []"
  by (cases s) auto

lemma split_strip_nonempty: "str_strip s \<noteq> [] \<Longrightarrow> str_split (str_strip s) \<noteq> []"
  by (simp add: split_nonempty strip_ends)

lemma strip_all_space: "list_all str_isspace s \<Longrightarrow> str_strip s = []"
proof -
  assume "list_all str_isspace s"
  then have "dropWhile str_isspace s = []" by (simp add: list_all_iff)
  then show ?thesis
    unfolding str_strip_def by (simp only: rev.simps dropWhile.simps)
qed

lemma split_Nil_all_space: "str_split s = [] \<Longrightarrow> list_all str_isspace s"
  by (induction s rule: str_split.induct) (auto split: if_splits)

lemma strip_token:
  assumes "t \<noteq> []" and "\<forall>c\<in>set t. \<not> str_isspace c" and "list_all str_isspace ws"
  shows "str_strip (t @ ws) = t"
proof -
  from assms(1,2) have h: "\<not> str_isspace (hd t)" and l: "\<not> str_isspace (last t)" by auto
  from assms(1) h have d1: "dropWhile str_isspace (t @ ws) = t @ ws"
    by (cases t) auto
  have d2: "dropWhile str_isspace (rev ws @ rev t) = dropWhile str_isspace (rev t)"
    by (rule dropWhile_append2) (use assms(3) in \<open>auto simp: list_all_iff\<close>)
  from assms(1) l have d3: "dropWhile str_isspace (rev t) = rev t"
    by (cases t rule: rev_cases) auto
  show ?thesis
    unfolding str_strip_def d1 by (simp only: rev_append d2 d3 rev_rev_ident)
qed

lemma split_single:
  "str_split s = [t] \<Longrightarrow> str_strip s = t \<and> (\<forall>c\<in>set t. \<not> str_isspace c)"
proof (induction s rule: str_split.induct)
  case 1
  then show ?case by simp
next
  case (2 c cs)
  show ?case
  proof (cases "str_isspace c")
    case True
    with 2 have "str_strip cs = t \<and> (\<forall>c\<in>set t. \<not> str_isspace c)" by simp
    moreover from True have "str_strip (c # cs) = str_strip cs" by (simp add: str_strip_def)
    ultimately show ?thesis by simp
  next
    case False
    let ?tok = "c # takeWhile (\<lambda>x. \<not> str_isspace x) cs"
    let ?rest = "dropWhile (\<lambda>x. \<not> str_isspace x) cs"
    from False "2.prems" have t: "t = ?tok" and r: "str_split ?rest = []" by simp_all
    have ns: "\<forall>x\<in>set ?tok. \<not> str_isspace x"
      using False by (auto dest: set_takeWhileD)
    have "c # cs = ?tok @ ?rest" by simp
    then have "str_strip (c # cs) = str_strip (?tok @ ?rest)" by simp
    also have "\<dots> = ?tok"
      by (rule strip_token) (use ns r in \<open>auto intro: split_Nil_all_space\<close>)
    finally show ?thesis using ns t by simp
  qed
qed

lemma space_char: "str_isspace CHR '' ''"
  by (simp add: str_isspace_def)

lemma sublist_space_iff: "sublist '' '' s \<longleftrightarrow> CHR '' '' \<in> set s"
  by (induction s) (auto simp: sublist_Cons_right)

lemma space_in_strip_two_words:
  assumes "sublist '' '' (str_strip raw)"
  shows "\<exists>g h rest. str_split raw = g # h # rest"
proof (cases "str_split raw")
  case Nil
  then have "str_strip raw = []" by (simp add: split_Nil_all_space strip_all_space)
  with assms show ?thesis by simp
next
  case (Cons g ws)
  show ?thesis
  proof (cases ws)
    case Nil
    from Cons Nil split_single [of raw g]
    have "\<forall>c\<in>set (str_strip raw). \<not> str_isspace c" by simp
    with assms space_char show ?thesis by (auto simp: sublist_space_iff)
  next
    case (Cons h rest)
    with \<open>str_split raw = g # ws\<close> show ?thesis by simp
  qed
qed


section \<open>The normalisation steps\<close>

lemma normalize_genre_total: "\<exists>g. normalize_genre raw = Inr g"
proof (cases "sublist '' '' (str_strip raw)")
  case True
  then obtain g h rest where "str_split raw = g # h # rest"
    using space_in_strip_two_words by blast
  then show ?thesis by (simp add: normalize_genre_def Let_def split_strip)
next
  case False
  then show ?thesis by (simp add: normalize_genre_def Let_def)
qed

text \<open>
  What the genre step computes: the guard of \<open>classify_genre\<close> looks for a space
  character in the trimmed text. When there is one, the text has at least two words and
  the result is the first of them; when there is none, the trimmed text is returned as it
  is, and so is every text of one word or none. The step never raises.
\<close>
theorem normalize_genre_first_token:
  "(sublist '' '' (str_strip raw) \<longrightarrow>
      (\<exists>g h rest. str_split raw = g # h # rest \<and> normalize_genre raw = Inr g
         \<and> genre_of_response (Inr raw) = g))
   \<and> (\<not> sublist '' '' (str_strip raw) \<longrightarrow>
        normalize_genre raw = Inr (str_strip raw)
        \<and> genre_of_response (Inr raw) = str_strip raw)
   \<and> (length (str_split raw) \<le> 1 \<longrightarrow>
        normalize_genre raw = Inr (str_strip raw)
        \<and> genre_of_response (Inr raw) = str_strip raw)"
proof -
  have a: "\<exists>g h rest. str_split raw = g # h # rest \<and> normalize_genre raw = Inr g
         \<and> genre_of_response (Inr raw) = g" if s: "sublist '' '' (str_strip raw)"
  proof -
    from s obtain g h rest where sp: "str_split raw = g # h # rest"
      using space_in_strip_two_words by blast
    with s have "normalize_genre raw = Inr g"
      by (simp add: normalize_genre_def Let_def split_strip)
    with sp show ?thesis by (simp add: genre_of_response_def)
  qed
  have b: "normalize_genre raw = Inr (str_strip raw)
        \<and> genre_of_response (Inr raw) = str_strip raw" if "\<not> sublist '' '' (str_strip raw)"
    using that by (simp add: normalize_genre_def Let_def genre_of_response_def)
  have c: "\<not> sublist '' '' (str_strip raw)" if "length (str_split raw) \<le> 1"
    using that space_in_strip_two_words [of raw] by auto
  from a b c show ?thesis by blast
qed

text \<open>The two branches at \<open>"  Strategy game.  "\<close> and at \<open>" Sandbox "\<close>.\<close>
theorem normalize_genre_first_token_witness:
  "sublist '' '' (str_strip ''  Strategy game.  '')
   \<and> normalize_genre ''  Strategy game.  '' = Inr ''Strategy''
   \<and> \<not> sublist '' '' (str_strip '' Sandbox '')
   \<and> length (str_split '' Sandbox '') \<le> 1
   \<and> normalize_genre '' Sandbox '' = Inr ''Sandbox''"
proof -
  have h1: "sublist '' '' (str_strip ''  Strategy game.  '')" by code_simp
  have h2: "\<not> sublist '' '' (str_strip '' Sandbox '')" by code_simp
  have h3: "length (str_split '' Sandbox '') \<le> 1" by code_simp
  have s1: "str_split ''  Strategy game.  '' = [''Strategy'', ''game.'']" by code_simp
  have s2: "str_strip '' Sandbox '' = ''Sandbox''" by code_simp
  from normalize_genre_first_token [of "''  Strategy game.  ''"] h1 s1
  have r1: "normalize_genre ''  Strategy game.  '' = Inr ''Strategy''" by auto
  from normalize_genre_first_token [of "'' Sandbox ''"] h2 s2
  have r2: "normalize_genre '' Sandbox '' = Inr ''Sandbox''" by auto
  from h1 h2 h3 r1 r2 show ?thesis by blast
qed

text \<open>
  Claim C2 at the response \<open>Action\<close>, newline, \<open>Adventure\<close>: the text has two words and
  \<open>classify_genre\<close> gives it back whole, newline and all, where the claim asks for the
  first word. The guard looks for a space character only, while \<open>split()\<close> separates at
  any whitespace: once a space stands anywhere in the text, the same newline does
  separate, and two words with a space between them give the first.
\<close>
theorem newline_separated_genre_returned_whole:
  "str_split (''Action'' @ [CHR 0x0A] @ ''Adventure'') = [''Action'', ''Adventure'']
   \<and> genre_of_response (Inr (''Action'' @ [CHR 0x0A] @ ''Adventure''))
       = ''Action'' @ [CHR 0x0A] @ ''Adventure''
   \<and> genre_of_response (Inr (''Action'' @ [CHR 0x0A] @ ''Adventure'')) \<noteq> ''Action''
   \<and> genre_of_response (Inr (''Action'' @ [CHR 0x0A] @ ''Adventure game'')) = ''Action''
   \<and> genre_of_response (Inr ''Action Adventure'') = ''Action''"
  by code_simp

lemma labels_lower:
  "sublist ''single'' (str_lower ''Singleplayer'')"
  "sublist ''multi'' (str_lower ''Multiplayer'')"
  "\<not> sublist ''both'' (str_lower ''Multiplayer'')"
  "sublist ''both'' (str_lower ''Both'')"
  by code_simp+

text \<open>
  Claim C1: the normalisation of the player mode always gives one of the three labels,
  by the rules in their order, read on the lower-cased text (trimmed or not: the needles
  hold no whitespace); a text with both \<open>single\<close> and \<open>multi\<close> gives \<open>Singleplayer\<close>.
\<close>
theorem normalize_player_mode_precedence:
  "normalize_player_mode raw \<in> {''Singleplayer'', ''Multiplayer'', ''Both''}
   \<and> normalize_player_mode raw =
       (if sublist ''single'' (str_lower raw) then ''Singleplayer''
        else if sublist ''multi'' (str_lower raw) \<and> \<not> sublist ''both'' (str_lower raw)
        then ''Multiplayer''
        else if sublist ''both'' (str_lower raw) then ''Both''
        else if str_strip raw \<in> {''Singleplayer'', ''Multiplayer'', ''Both''} then str_strip raw
        else ''Both'')
   \<and> (sublist ''single'' (str_lower raw) \<and> sublist ''multi'' (str_lower raw)
        \<longrightarrow> normalize_player_mode raw = ''Singleplayer'')
   \<and> player_mode_of_response (Inr raw) = normalize_player_mode raw"
proof -
  have eq: "normalize_player_mode raw =
       (if sublist ''single'' (str_lower raw) then ''Singleplayer''
        else if sublist ''multi'' (str_lower raw) \<and> \<not> sublist ''both'' (str_lower raw)
        then ''Multiplayer''
        else if sublist ''both'' (str_lower raw) then ''Both''
        else if str_strip raw \<in> {''Singleplayer'', ''Multiplayer'', ''Both''} then str_strip raw
        else ''Both'')"
    by (simp add: normalize_player_mode_def Let_def valid_modes_def
        single_lower_strip multi_lower_strip both_lower_strip)
  have mem: "normalize_player_mode raw \<in> {''Singleplayer'', ''Multiplayer'', ''Both''}"
    unfolding eq by (simp del: set_empty2)
  have part: "sublist ''single'' (str_lower raw) \<and> sublist ''multi'' (str_lower raw)
        \<longrightarrow> normalize_player_mode raw = ''Singleplayer''"
    unfolding eq by simp
  have resp: "player_mode_of_response (Inr raw) = normalize_player_mode raw"
    by (simp add: player_mode_of_response_def)
  from mem eq part resp show ?thesis by blast
qed

text \<open>The response of the end-to-end scenario holds \<open>single\<close> and \<open>multi\<close>.\<close>
theorem normalize_player_mode_precedence_witness:
  "sublist ''single''
     (str_lower ''This game supports both single-player campaign and online multiplayer'')
   \<and> sublist ''multi''
     (str_lower ''This game supports both single-player campaign and online multiplayer'')
   \<and> normalize_player_mode
        ''This game supports both single-player campaign and online multiplayer''
       = ''Singleplayer''"
proof -
  have h: "sublist ''single''
     (str_lower ''This game supports both single-player campaign and online multiplayer'')
   \<and> sublist ''multi''
     (str_lower ''This game supports both single-player campaign and online multiplayer'')"
    by code_simp
  with normalize_player_mode_precedence
    [of "''This game supports both single-player campaign and online multiplayer''"]
  show ?thesis by blast
qed

text \<open>
  Claim C10: the comparison against \<open>valid_modes\<close> changes nothing, since a trimmed
  text that is one of the three labels is caught by a substring rule before.
\<close>
theorem exact_match_unreachable:
  "normalize_player_mode raw = normalize_player_mode_without_exact_match raw
   \<and> (str_strip raw \<in> set valid_modes \<longrightarrow>
        sublist ''single'' (str_lower (str_strip raw))
        \<or> (sublist ''multi'' (str_lower (str_strip raw))
            \<and> \<not> sublist ''both'' (str_lower (str_strip raw)))
        \<or> sublist ''both'' (str_lower (str_strip raw)))"
proof -
  have r: "sublist ''single'' (str_lower (str_strip raw))
        \<or> (sublist ''multi'' (str_lower (str_strip raw))
            \<and> \<not> sublist ''both'' (str_lower (str_strip raw)))
        \<or> sublist ''both'' (str_lower (str_strip raw))"
    if "str_strip raw \<in> set valid_modes"
  proof -
    from that consider "str_strip raw = ''Singleplayer''" | "str_strip raw = ''Multiplayer''"
      | "str_strip raw = ''Both''"
      by (auto simp: valid_modes_def)
    then show ?thesis
      by cases (simp_all only: labels_lower simp_thms)
  qed
  then have "normalize_player_mode raw = normalize_player_mode_without_exact_match raw"
    unfolding normalize_player_mode_def normalize_player_mode_without_exact_match_def Let_def
    by auto
  with r show ?thesis by blast
qed

text \<open>The label \<open>Multiplayer\<close> is caught by the second rule.\<close>
theorem exact_match_unreachable_witness:
  "str_strip '' Multiplayer '' \<in> set valid_modes
   \<and> sublist ''multi'' (str_lower (str_strip '' Multiplayer ''))
   \<and> normalize_player_mode '' Multiplayer ''
       = normalize_player_mode_without_exact_match '' Multiplayer ''"
proof -
  have h: "str_strip '' Multiplayer '' \<in> set valid_modes" by code_simp
  have m: "sublist ''multi'' (str_lower (str_strip '' Multiplayer ''))" by code_simp
  from exact_match_unreachable [of "'' Multiplayer ''"] h m show ?thesis by blast
qed

text \<open>
  Claim C3: with more than 30 words the description is the first 29 words joined by
  single spaces and a full stop; with 30 words or fewer it is the trimmed text.
\<close>
theorem normalize_description_contract:
  "(30 < length (str_split raw) \<longrightarrow>
      normalize_description raw = str_join '' '' (take 29 (str_split raw)) @ ''.'')
   \<and> (length (str_split raw) \<le> 30 \<longrightarrow> normalize_description raw = str_strip raw)
   \<and> description_of_response (Inr raw) = normalize_description raw"
  by (simp add: normalize_description_def description_of_response_def Let_def split_strip)

text \<open>A text of 31 words, and a text of two words with two spaces between them.\<close>
theorem normalize_description_contract_witness:
  "30 < length (str_split '' a b c d e f g h i j k l m n o p q r s t u v w x y z A B C D E '')
   \<and> normalize_description '' a b c d e f g h i j k l m n o p q r s t u v w x y z A B C D E ''
       = ''a b c d e f g h i j k l m n o p q r s t u v w x y z A B C.''
   \<and> length (str_split '' two  words '') \<le> 30
   \<and> normalize_description '' two  words '' = ''two  words''"
proof -
  have h1: "30 < length (str_split '' a b c d e f g h i j k l m n o p q r s t u v w x y z A B C D E '')"
    by code_simp
  have j: "str_join '' '' (take 29 (str_split '' a b c d e f g h i j k l m n o p q r s t u v w x y z A B C D E '')) @ ''.''
       = ''a b c d e f g h i j k l m n o p q r s t u v w x y z A B C.''"
    by code_simp
  have h2: "length (str_split '' two  words '') \<le> 30" by code_simp
  have s: "str_strip '' two  words '' = ''two  words''" by code_simp
  from normalize_description_contract
    [of "'' a b c d e f g h i j k l m n o p q r s t u v w x y z A B C D E ''"] h1 j
  have r1: "normalize_description '' a b c d e f g h i j k l m n o p q r s t u v w x y z A B C D E ''
       = ''a b c d e f g h i j k l m n o p q r s t u v w x y z A B C.''" by simp
  from normalize_description_contract [of "'' two  words ''"] h2 s
  have r2: "normalize_description '' two  words '' = ''two  words''" by simp
  from h1 r1 h2 r2 show ?thesis by blast
qed

text \<open>
  Claim C9: a response of whitespace only that comes back without a failure gives the
  empty string for the genre and for the description, not the fallback.
\<close>
theorem empty_response_gives_empty_field:
  "(\<forall>c\<in>set raw. str_isspace c) \<longrightarrow>
     genre_of_response (Inr raw) = [] \<and> description_of_response (Inr raw) = []
     \<and> genre_of_response (Inr raw) \<noteq> ''Unknown''
     \<and> description_of_response (Inr raw) \<noteq> ''A video game experience.''"
proof
  assume a: "\<forall>c\<in>set raw. str_isspace c"
  then have s: "str_strip raw = []" by (simp add: strip_all_space list_all_iff)
  then show "genre_of_response (Inr raw) = [] \<and> description_of_response (Inr raw) = []
     \<and> genre_of_response (Inr raw) \<noteq> ''Unknown''
     \<and> description_of_response (Inr raw) \<noteq> ''A video game experience.''"
    by (simp add: genre_of_response_def normalize_genre_def description_of_response_def
        normalize_description_def Let_def)
qed

text \<open>A space followed by a newline.\<close>
theorem empty_response_gives_empty_field_witness:
  "list_all str_isspace ('' '' @ [CHR 0x0A])
   \<and> genre_of_response (Inr ('' '' @ [CHR 0x0A])) = []
   \<and> description_of_response (Inr ('' '' @ [CHR 0x0A])) = []"
proof -
  have h: "\<forall>c\<in>set ('' '' @ [CHR 0x0A]). str_isspace c" by (simp add: str_isspace_def)
  with empty_response_gives_empty_field [of "'' '' @ [CHR 0x0A]"] show ?thesis
    by (simp add: list_all_iff)
qed

section \<open>The loop and the frame\<close>

lemma process_rows_Cons:
  assumes t: "getitem cols row ''game_title'' = Inr t"
    and g1: "generate_content e (service w) (genre_prompt t) = (r1, m1)"
    and g2: "generate_content e m1 (description_prompt t) = (r2, m2)"
    and g3: "generate_content e m2 (player_mode_prompt t) = (r3, m3)"
  shows "process_rows e cols (row # rest) (gs, ds, ps) w =
         process_rows e cols rest
           (gs @ [genre_of_response r1], ds @ [description_of_response r2],
            ps @ [player_mode_of_response r3])
           (w\<lparr>service := m3, trace := trace w @ row_events (api_delay e) t (r1, r2, r3)\<rparr>)"
  by (simp add: t g1 g2 g3 classify_genre_def generate_description_def
      determine_player_mode_def call_model_def sleep_def row_events_def)

lemma process_rows_run:
  assumes "map (\<lambda>row. getitem cols row ''game_title'') rws = map Inr ts"
  shows "\<exists>outs m'. length outs = length ts \<and>
           process_rows e cols rws (gs, ds, ps) w =
             (Inr (gs @ map (\<lambda>(a, b, c). genre_of_response a) outs,
                   ds @ map (\<lambda>(a, b, c). description_of_response b) outs,
                   ps @ map (\<lambda>(a, b, c). player_mode_of_response c) outs),
              w\<lparr>service := m',
                 trace := trace w @ concat (map2 (row_events (api_delay e)) ts outs)\<rparr>)"
  using assms
proof (induction rws arbitrary: ts gs ds ps w)
  case Nil
  then have "ts = []" by simp
  then have "length ([] :: (response \<times> response \<times> response) list) = length ts \<and>
           process_rows e cols [] (gs, ds, ps) w =
             (Inr (gs @ map (\<lambda>(a, b, c). genre_of_response a) [],
                   ds @ map (\<lambda>(a, b, c). description_of_response b) [],
                   ps @ map (\<lambda>(a, b, c). player_mode_of_response c) []),
              w\<lparr>service := service w,
                 trace := trace w @ concat (map2 (row_events (api_delay e)) ts [])\<rparr>)"
    by simp
  then show ?case by blast
next
  case (Cons row rest)
  from Cons.prems obtain t ts' where ts: "ts = t # ts'"
    and t: "getitem cols row ''game_title'' = Inr t"
    and rest: "map (\<lambda>row. getitem cols row ''game_title'') rest = map Inr ts'"
    by (cases ts) auto
  obtain r1 m1 where g1: "generate_content e (service w) (genre_prompt t) = (r1, m1)"
    by (cases "generate_content e (service w) (genre_prompt t)")
  obtain r2 m2 where g2: "generate_content e m1 (description_prompt t) = (r2, m2)"
    by (cases "generate_content e m1 (description_prompt t)")
  obtain r3 m3 where g3: "generate_content e m2 (player_mode_prompt t) = (r3, m3)"
    by (cases "generate_content e m2 (player_mode_prompt t)")
  let ?w6 = "w\<lparr>service := m3, trace := trace w @ row_events (api_delay e) t (r1, r2, r3)\<rparr>"
  from Cons.IH [OF rest, of "gs @ [genre_of_response r1]" "ds @ [description_of_response r2]"
      "ps @ [player_mode_of_response r3]" ?w6]
  obtain outs m' where len: "length outs = length ts'"
    and run: "process_rows e cols rest
           (gs @ [genre_of_response r1], ds @ [description_of_response r2],
            ps @ [player_mode_of_response r3]) ?w6 =
             (Inr ((gs @ [genre_of_response r1]) @ map (\<lambda>(a, b, c). genre_of_response a) outs,
                   (ds @ [description_of_response r2]) @ map (\<lambda>(a, b, c). description_of_response b) outs,
                   (ps @ [player_mode_of_response r3]) @ map (\<lambda>(a, b, c). player_mode_of_response c) outs),
              ?w6\<lparr>service := m',
                 trace := trace ?w6 @ concat (map2 (row_events (api_delay e)) ts' outs)\<rparr>)"
    by blast
  have "length ((r1, r2, r3) # outs) = length ts \<and>
           process_rows e cols (row # rest) (gs, ds, ps) w =
             (Inr (gs @ map (\<lambda>(a, b, c). genre_of_response a) ((r1, r2, r3) # outs),
                   ds @ map (\<lambda>(a, b, c). description_of_response b) ((r1, r2, r3) # outs),
                   ps @ map (\<lambda>(a, b, c). player_mode_of_response c) ((r1, r2, r3) # outs)),
              w\<lparr>service := m',
                 trace := trace w @ concat (map2 (row_events (api_delay e)) ts ((r1, r2, r3) # outs))\<rparr>)"
    unfolding process_rows_Cons [OF t g1 g2 g3] run
    by (simp add: len ts)
  then show ?case by blast
qed

lemma getitem_overwrite:
  "length row = length cols \<Longrightarrow>
   getitem cols (map2 (\<lambda>c x. if c = key then v else x) cols row) k =
     (if k = key \<and> key \<in> set cols then Inr v else getitem cols row k)"
proof -
  assume "length row = length cols"
  then have "map_of (zip cols (map2 (\<lambda>c x. if c = key then v else x) cols row)) k =
     (if k = key \<and> key \<in> set cols then Some v else map_of (zip cols row) k)"
    by (induction row cols rule: list_induct2) auto
  then show ?thesis by (simp add: getitem_def)
qed

lemma getitem_append:
  "length row = length cols \<Longrightarrow> key \<notin> set cols \<Longrightarrow>
   getitem (cols @ [key]) (row @ [v]) k = (if k = key then Inr v else getitem cols row k)"
proof -
  assume len: "length row = length cols" and new: "key \<notin> set cols"
  have dom: "k' \<in> set cols" if "map_of (zip cols row) k' = Some x" for k' x
    using that by (meson map_of_SomeD set_zip_leftD)
  from len have z: "map_of (zip (cols @ [key]) (row @ [v])) k =
      (case map_of (zip cols row) k of None \<Rightarrow> [key \<mapsto> v] k | Some x \<Rightarrow> Some x)"
    by (simp add: map_add_def)
  show ?thesis
  proof (cases "map_of (zip cols row) k")
    case None
    then show ?thesis unfolding getitem_def z by simp
  next
    case (Some x)
    with dom new have "k \<noteq> key" by blast
    with Some show ?thesis unfolding getitem_def z by simp
  qed
qed

lemma setitem_length:
  "setitem d key vals = Inr d' \<Longrightarrow> length (rows d') = length (rows d)"
  by (auto simp: setitem_def split: if_splits)

lemma setitem_Inr:
  "length vals = length (rows d) \<Longrightarrow> \<exists>d'. setitem d key vals = Inr d'"
  by (simp add: setitem_def)

lemma setitem_columns:
  "setitem d key vals = Inr d' \<Longrightarrow>
   columns d' = (if key \<in> set (columns d) then columns d else columns d @ [key])"
  by (auto simp: setitem_def split: if_splits)

lemma setitem_rows_new:
  "setitem d key vals = Inr d' \<Longrightarrow> key \<notin> set (columns d) \<Longrightarrow> i < length (rows d) \<Longrightarrow>
   rows d' ! i = rows d ! i @ [vals ! i]"
  by (auto simp: setitem_def split: if_splits)

lemma setitem_wf:
  "setitem d key vals = Inr d' \<Longrightarrow> wf_frame d \<Longrightarrow> wf_frame d'"
  by (auto simp: setitem_def wf_frame_def list_all_iff split: if_splits dest!: set_zip_leftD)

lemma setitem_cell:
  assumes s: "setitem d key vals = Inr d'" and wf: "wf_frame d" and i: "i < length (rows d)"
  shows "getitem (columns d') (rows d' ! i) k =
           (if k = key then Inr (vals ! i) else getitem (columns d) (rows d ! i) k)"
proof -
  from s have len: "length vals = length (rows d)"
    by (auto simp: setitem_def split: if_splits)
  from wf i have rl: "length (rows d ! i) = length (columns d)"
    by (simp add: wf_frame_def list_all_length)
  show ?thesis
  proof (cases "key \<in> set (columns d)")
    case True
    with s len have "d' = d\<lparr>rows :=
                  map2 (\<lambda>row v. map2 (\<lambda>c x. if c = key then v else x) (columns d) row)
                    (rows d) vals\<rparr>"
      by (simp add: setitem_def)
    with i len True show ?thesis
      by (simp add: getitem_overwrite [OF rl])
  next
    case False
    with s len have "d' = d\<lparr>columns := columns d @ [key],
                   rows := map2 (\<lambda>row v. row @ [v]) (rows d) vals\<rparr>"
      by (simp add: setitem_def)
    with i len False show ?thesis
      by (simp add: getitem_append [OF rl])
  qed
qed

lemma assign_column_Inr:
  "setitem (frames w df) key vals = Inr d \<Longrightarrow>
   assign_column df key vals w = (Inr (), w\<lparr>frames := (frames w)(df := d)\<rparr>)"
  by (simp add: assign_column_def)

lemma process_dataframe_run:
  assumes "map (\<lambda>row. getitem (columns (frames w df)) row ''game_title'') (rows (frames w df))
             = map Inr ts"
  shows "\<exists>outs m' d1 d2 d3. length outs = length ts
           \<and> setitem (frames w df) ''genre'' (map (\<lambda>(a, b, c). genre_of_response a) outs) = Inr d1
           \<and> setitem d1 ''short_description'' (map (\<lambda>(a, b, c). description_of_response b) outs) = Inr d2
           \<and> setitem d2 ''player_mode'' (map (\<lambda>(a, b, c). player_mode_of_response c) outs) = Inr d3
           \<and> process_dataframe e df w =
               (Inr df,
                w\<lparr>service := m',
                   trace := trace w @ concat (map2 (row_events (api_delay e)) ts outs),
                   frames := (frames w)(df := d3)\<rparr>)"
proof -
  let ?d = "frames w df"
  from process_rows_run [OF assms, of e "[]" "[]" "[]" w]
  obtain outs m' where len: "length outs = length ts"
    and run: "process_rows e (columns ?d) (rows ?d) ([], [], []) w =
             (Inr (map (\<lambda>(a, b, c). genre_of_response a) outs,
                   map (\<lambda>(a, b, c). description_of_response b) outs,
                   map (\<lambda>(a, b, c). player_mode_of_response c) outs),
              w\<lparr>service := m',
                 trace := trace w @ concat (map2 (row_events (api_delay e)) ts outs)\<rparr>)"
    by auto
  let ?w' = "w\<lparr>service := m',
                 trace := trace w @ concat (map2 (row_events (api_delay e)) ts outs)\<rparr>"
  from assms have n: "length (rows ?d) = length ts"
    by (metis length_map)
  obtain d1 where d1: "setitem ?d ''genre'' (map (\<lambda>(a, b, c). genre_of_response a) outs) = Inr d1"
    using setitem_Inr [of "map (\<lambda>(a, b, c). genre_of_response a) outs" ?d "''genre''"] len n
    by auto
  obtain d2 where d2: "setitem d1 ''short_description'' (map (\<lambda>(a, b, c). description_of_response b) outs) = Inr d2"
    using setitem_Inr [of "map (\<lambda>(a, b, c). description_of_response b) outs" d1 "''short_description''"]
      len n setitem_length [OF d1]
    by auto
  obtain d3 where d3: "setitem d2 ''player_mode'' (map (\<lambda>(a, b, c). player_mode_of_response c) outs) = Inr d3"
    using setitem_Inr [of "map (\<lambda>(a, b, c). player_mode_of_response c) outs" d2 "''player_mode''"]
      len n setitem_length [OF d1] setitem_length [OF d2]
    by auto
  have "process_dataframe e df w = (Inr df, ?w'\<lparr>frames := (frames ?w')(df := d3)\<rparr>)"
    unfolding process_dataframe_def run by (simp add: assign_column_def d1 d2 d3)
  then have "process_dataframe e df w =
               (Inr df,
                w\<lparr>service := m',
                   trace := trace w @ concat (map2 (row_events (api_delay e)) ts outs),
                   frames := (frames w)(df := d3)\<rparr>)"
    by simp
  with len d1 d2 d3 show ?thesis by blast
qed

lemma fallback_values:
  "genre_of_response (Inl ex) = ''Unknown''"
  "description_of_response (Inl ex) = ''A video game experience.''"
  "player_mode_of_response (Inl ex) = ''Both''"
  by (simp_all add: genre_of_response_def description_of_response_def
      player_mode_of_response_def)

lemma final_cells:
  assumes d1: "setitem d ''genre'' gs = Inr d1"
    and d2: "setitem d1 ''short_description'' ds = Inr d2"
    and d3: "setitem d2 ''player_mode'' ps = Inr d3"
    and wf: "wf_frame d" and i: "i < length (rows d)"
  shows "getitem (columns d3) (rows d3 ! i) k =
           (if k = ''player_mode'' then Inr (ps ! i)
            else if k = ''short_description'' then Inr (ds ! i)
            else if k = ''genre'' then Inr (gs ! i)
            else getitem (columns d) (rows d ! i) k)"
proof -
  have wf1: "wf_frame d1" using d1 wf by (rule setitem_wf)
  have wf2: "wf_frame d2" using d2 wf1 by (rule setitem_wf)
  have i1: "i < length (rows d1)" using i setitem_length [OF d1] by simp
  have i2: "i < length (rows d2)" using i1 setitem_length [OF d2] by simp
  show ?thesis
    unfolding setitem_cell [OF d3 wf2 i2] setitem_cell [OF d2 wf1 i1] setitem_cell [OF d1 wf i]
    by simp
qed

lemma final_columns:
  assumes d1: "setitem d ''genre'' gs = Inr d1"
    and d2: "setitem d1 ''short_description'' ds = Inr d2"
    and d3: "setitem d2 ''player_mode'' ps = Inr d3"
  shows "prefix (columns d) (columns d3)"
    and "length (rows d3) = length (rows d)"
proof -
  have "prefix (columns d) (columns d1)"
    unfolding setitem_columns [OF d1] by simp
  moreover have "prefix (columns d1) (columns d2)"
    unfolding setitem_columns [OF d2] by simp
  moreover have "prefix (columns d2) (columns d3)"
    unfolding setitem_columns [OF d3] by simp
  ultimately show "prefix (columns d) (columns d3)"
    by (meson prefix_order.trans)
  show "length (rows d3) = length (rows d)"
    using setitem_length [OF d1] setitem_length [OF d2] setitem_length [OF d3] by simp
qed

lemma final_fresh:
  assumes d1: "setitem d ''genre'' gs = Inr d1"
    and d2: "setitem d1 ''short_description'' ds = Inr d2"
    and d3: "setitem d2 ''player_mode'' ps = Inr d3"
    and fresh: "''genre'' \<notin> set (columns d)" "''short_description'' \<notin> set (columns d)"
      "''player_mode'' \<notin> set (columns d)"
  shows "columns d3 = columns d @ [''genre'', ''short_description'', ''player_mode'']"
    and "i < length (rows d) \<Longrightarrow> rows d3 ! i = rows d ! i @ [gs ! i, ds ! i, ps ! i]"
proof -
  have c1: "columns d1 = columns d @ [''genre'']"
    using setitem_columns [OF d1] fresh by simp
  have f2: "''short_description'' \<notin> set (columns d1)"
    using fresh by (simp add: c1)
  have c2: "columns d2 = columns d @ [''genre'', ''short_description'']"
    using setitem_columns [OF d2] f2 by (simp add: c1)
  have f3: "''player_mode'' \<notin> set (columns d2)"
    using fresh by (simp add: c2)
  show "columns d3 = columns d @ [''genre'', ''short_description'', ''player_mode'']"
    using setitem_columns [OF d3] f3 by (simp add: c2)
  assume i: "i < length (rows d)"
  then have i1: "i < length (rows d1)" using setitem_length [OF d1] by simp
  then have i2: "i < length (rows d2)" using setitem_length [OF d2] by simp
  show "rows d3 ! i = rows d ! i @ [gs ! i, ds ! i, ps ! i]"
    unfolding setitem_rows_new [OF d3 f3 i2] setitem_rows_new [OF d2 f2 i1]
      setitem_rows_new [OF d1 fresh(1) i]
    by simp
qed

lemma steps_of_row_events:
  "length outs = length ts \<Longrightarrow>
   map step_of (concat (map2 (row_events d) ts outs)) = concat (map (row_steps d) ts)"
  by (induction outs ts rule: list_induct2)
    (auto simp: row_events_def row_steps_def split: prod.splits)

lemma last_row_steps: "ts \<noteq> [] \<Longrightarrow> last (concat (map (row_steps d) ts)) = Inr d"
  by (cases ts rule: rev_cases) (simp_all add: row_steps_def)

lemma final_labels:
  assumes d1: "setitem d ''genre'' gs = Inr d1"
    and d2: "setitem d1 ''short_description'' ds = Inr d2"
    and d3: "setitem d2 ''player_mode'' ps = Inr d3"
  shows "set (columns d3)
           = set (columns d) \<union> {''genre'', ''short_description'', ''player_mode''}"
  unfolding setitem_columns [OF d3] setitem_columns [OF d2] setitem_columns [OF d1]
  by auto

text \<open>
  Claim C4: whatever the service does, \<open>process_dataframe\<close> returns; its calls are the
  three calls of each row, each made once, with outcomes \<open>outs\<close>; each of the three
  fields of row \<open>i\<close> is the result of its own call alone, and a call that failed gives
  \<open>Unknown\<close>, \<open>A video game experience.\<close> or \<open>Both\<close>.
\<close>
theorem failed_call_gives_fallback:
  assumes "map (\<lambda>row. getitem (columns (frames w df)) row ''game_title'') (rows (frames w df))
             = map Inr ts"
    and "wf_frame (frames w df)"
  shows "\<exists>outs w'. length outs = length ts
           \<and> process_dataframe e df w = (Inr df, w')
           \<and> trace w' = trace w @ concat (map2 (row_events (api_delay e)) ts outs)
           \<and> (\<forall>i<length ts. case outs ! i of (r1, r2, r3) \<Rightarrow>
                 getitem (columns (frames w' df)) (rows (frames w' df) ! i) ''genre''
                   = Inr (genre_of_response r1)
               \<and> getitem (columns (frames w' df)) (rows (frames w' df) ! i) ''short_description''
                   = Inr (description_of_response r2)
               \<and> getitem (columns (frames w' df)) (rows (frames w' df) ! i) ''player_mode''
                   = Inr (player_mode_of_response r3))
           \<and> (\<forall>ex. genre_of_response (Inl ex) = ''Unknown''
                 \<and> description_of_response (Inl ex) = ''A video game experience.''
                 \<and> player_mode_of_response (Inl ex) = ''Both'')"
proof -
  let ?d = "frames w df"
  from process_dataframe_run [OF assms(1), of e]
  obtain outs m' d1 d2 d3 where len: "length outs = length ts"
    and d1: "setitem ?d ''genre'' (map (\<lambda>(a, b, c). genre_of_response a) outs) = Inr d1"
    and d2: "setitem d1 ''short_description'' (map (\<lambda>(a, b, c). description_of_response b) outs) = Inr d2"
    and d3: "setitem d2 ''player_mode'' (map (\<lambda>(a, b, c). player_mode_of_response c) outs) = Inr d3"
    and run: "process_dataframe e df w =
               (Inr df,
                w\<lparr>service := m',
                   trace := trace w @ concat (map2 (row_events (api_delay e)) ts outs),
                   frames := (frames w)(df := d3)\<rparr>)"
    by blast
  let ?w' = "w\<lparr>service := m',
                   trace := trace w @ concat (map2 (row_events (api_delay e)) ts outs),
                   frames := (frames w)(df := d3)\<rparr>"
  from assms(1) have n: "length (rows ?d) = length ts" by (metis length_map)
  have cells: "case outs ! i of (r1, r2, r3) \<Rightarrow>
                 getitem (columns (frames ?w' df)) (rows (frames ?w' df) ! i) ''genre''
                   = Inr (genre_of_response r1)
               \<and> getitem (columns (frames ?w' df)) (rows (frames ?w' df) ! i) ''short_description''
                   = Inr (description_of_response r2)
               \<and> getitem (columns (frames ?w' df)) (rows (frames ?w' df) ! i) ''player_mode''
                   = Inr (player_mode_of_response r3)" if i: "i < length ts" for i
  proof -
    from i n have i': "i < length (rows ?d)" by simp
    from i len have io: "i < length outs" by simp
    show ?thesis
      by (simp add: final_cells [OF d1 d2 d3 assms(2) i'] io split: prod.splits)
  qed
  have "length outs = length ts
           \<and> process_dataframe e df w = (Inr df, ?w')
           \<and> trace ?w' = trace w @ concat (map2 (row_events (api_delay e)) ts outs)
           \<and> (\<forall>i<length ts. case outs ! i of (r1, r2, r3) \<Rightarrow>
                 getitem (columns (frames ?w' df)) (rows (frames ?w' df) ! i) ''genre''
                   = Inr (genre_of_response r1)
               \<and> getitem (columns (frames ?w' df)) (rows (frames ?w' df) ! i) ''short_description''
                   = Inr (description_of_response r2)
               \<and> getitem (columns (frames ?w' df)) (rows (frames ?w' df) ! i) ''player_mode''
                   = Inr (player_mode_of_response r3))
           \<and> (\<forall>ex. genre_of_response (Inl ex) = ''Unknown''
                 \<and> description_of_response (Inl ex) = ''A video game experience.''
                 \<and> player_mode_of_response (Inl ex) = ''Both'')"
    using len run cells by (simp add: fallback_values)
  then show ?thesis by blast
qed

text \<open>
  Claim C5, as the code has it: for a frame that has a column \<open>game_title\<close> and none
  of the three new labels yet, the result has the same rows in the same order, each
  with three cells added at its end, under the columns \<open>genre\<close>, \<open>short_description\<close>
  and \<open>player_mode\<close> added after the original ones.
\<close>
theorem three_columns_appended:
  assumes "map (\<lambda>row. getitem (columns (frames w df)) row ''game_title'') (rows (frames w df))
             = map Inr ts"
    and "''genre'' \<notin> set (columns (frames w df))"
    and "''short_description'' \<notin> set (columns (frames w df))"
    and "''player_mode'' \<notin> set (columns (frames w df))"
  shows "\<exists>w'. process_dataframe e df w = (Inr df, w')
           \<and> columns (frames w' df)
               = columns (frames w df) @ [''genre'', ''short_description'', ''player_mode'']
           \<and> length (rows (frames w' df)) = length (rows (frames w df))
           \<and> (\<forall>i<length (rows (frames w df)).
                 \<exists>g s p. rows (frames w' df) ! i = rows (frames w df) ! i @ [g, s, p])"
proof -
  let ?d = "frames w df"
  from process_dataframe_run [OF assms(1), of e]
  obtain outs m' d1 d2 d3 where len: "length outs = length ts"
    and d1: "setitem ?d ''genre'' (map (\<lambda>(a, b, c). genre_of_response a) outs) = Inr d1"
    and d2: "setitem d1 ''short_description'' (map (\<lambda>(a, b, c). description_of_response b) outs) = Inr d2"
    and d3: "setitem d2 ''player_mode'' (map (\<lambda>(a, b, c). player_mode_of_response c) outs) = Inr d3"
    and run: "process_dataframe e df w =
               (Inr df,
                w\<lparr>service := m',
                   trace := trace w @ concat (map2 (row_events (api_delay e)) ts outs),
                   frames := (frames w)(df := d3)\<rparr>)"
    by blast
  let ?w' = "w\<lparr>service := m',
                   trace := trace w @ concat (map2 (row_events (api_delay e)) ts outs),
                   frames := (frames w)(df := d3)\<rparr>"
  have "process_dataframe e df w = (Inr df, ?w')
           \<and> columns (frames ?w' df)
               = columns ?d @ [''genre'', ''short_description'', ''player_mode'']
           \<and> length (rows (frames ?w' df)) = length (rows ?d)
           \<and> (\<forall>i<length (rows ?d).
                 \<exists>g s p. rows (frames ?w' df) ! i = rows ?d ! i @ [g, s, p])"
    using run final_fresh [OF d1 d2 d3 assms(2,3,4)] final_columns(2) [OF d1 d2 d3]
    by simp
  then show ?thesis by blast
qed

text \<open>
  Claim C6: the calls and pauses of a run are, row after row in the order of the rows,
  the genre call, a pause, the description call, a pause, the player mode call and a
  pause; so the last event of a run over at least one row is a pause.
\<close>
theorem calls_and_pauses_in_row_order:
  assumes "map (\<lambda>row. getitem (columns (frames w df)) row ''game_title'') (rows (frames w df))
             = map Inr ts"
  shows "\<exists>w' new. process_dataframe e df w = (Inr df, w')
           \<and> trace w' = trace w @ new
           \<and> map step_of new = concat (map (row_steps (api_delay e)) ts)
           \<and> (ts \<noteq> [] \<longrightarrow> last new = Sleep (api_delay e))"
proof -
  from process_dataframe_run [OF assms(1), of e]
  obtain outs m' d3 where len: "length outs = length ts"
    and run: "process_dataframe e df w =
               (Inr df,
                w\<lparr>service := m',
                   trace := trace w @ concat (map2 (row_events (api_delay e)) ts outs),
                   frames := (frames w)(df := d3)\<rparr>)"
    by blast
  let ?new = "concat (map2 (row_events (api_delay e)) ts outs)"
  let ?w' = "w\<lparr>service := m', trace := trace w @ ?new, frames := (frames w)(df := d3)\<rparr>"
  have steps: "map step_of ?new = concat (map (row_steps (api_delay e)) ts)"
    using len by (rule steps_of_row_events)
  have lst: "last ?new = Sleep (api_delay e)" if ne: "ts \<noteq> []"
  proof -
    from ne have "last (map step_of ?new) = Inr (api_delay e)"
      unfolding steps by (rule last_row_steps)
    moreover from ne steps have nn: "?new \<noteq> []"
      by (cases ts) (auto simp: row_steps_def simp del: concat_eq_Nil_conv)
    ultimately have "step_of (last ?new) = Inr (api_delay e)"
      by (simp add: last_map)
    then show ?thesis by (cases "last ?new") simp_all
  qed
  have "process_dataframe e df w = (Inr df, ?w')
           \<and> trace ?w' = trace w @ ?new
           \<and> map step_of ?new = concat (map (row_steps (api_delay e)) ts)
           \<and> (ts \<noteq> [] \<longrightarrow> last ?new = Sleep (api_delay e))"
    using run steps lst by simp
  then show ?thesis by blast
qed

text \<open>
  Claim C7, as the code has it: the reference that comes back is the one that was passed
  in, and the frame behind it has been written to: its labels are the original ones and
  \<open>genre\<close>, \<open>short_description\<close> and \<open>player_mode\<close>, and in row \<open>i\<close> the cells under
  these three hold the results of the three calls made for row \<open>i\<close>. No other frame
  changes; in the frame itself the number of rows, the original column labels as a
  prefix, and every cell under a label other than the three are as before.
\<close>
theorem frame_updated_in_place:
  assumes "map (\<lambda>row. getitem (columns (frames w df)) row ''game_title'') (rows (frames w df))
             = map Inr ts"
    and "wf_frame (frames w df)"
  shows "\<exists>outs w'. process_dataframe e df w = (Inr df, w')
           \<and> length outs = length ts
           \<and> trace w' = trace w @ concat (map2 (row_events (api_delay e)) ts outs)
           \<and> set (columns (frames w' df))
               = set (columns (frames w df)) \<union> {''genre'', ''short_description'', ''player_mode''}
           \<and> (\<forall>i<length (rows (frames w df)). case outs ! i of (r1, r2, r3) \<Rightarrow>
                 getitem (columns (frames w' df)) (rows (frames w' df) ! i) ''genre''
                   = Inr (genre_of_response r1)
               \<and> getitem (columns (frames w' df)) (rows (frames w' df) ! i) ''short_description''
                   = Inr (description_of_response r2)
               \<and> getitem (columns (frames w' df)) (rows (frames w' df) ! i) ''player_mode''
                   = Inr (player_mode_of_response r3))
           \<and> (\<forall>r. r \<noteq> df \<longrightarrow> frames w' r = frames w r)
           \<and> length (rows (frames w' df)) = length (rows (frames w df))
           \<and> prefix (columns (frames w df)) (columns (frames w' df))
           \<and> (\<forall>i<length (rows (frames w df)). \<forall>k.
                 k \<notin> {''genre'', ''short_description'', ''player_mode''} \<longrightarrow>
                 getitem (columns (frames w' df)) (rows (frames w' df) ! i) k
                   = getitem (columns (frames w df)) (rows (frames w df) ! i) k)"
proof -
  let ?d = "frames w df"
  from process_dataframe_run [OF assms(1), of e]
  obtain outs m' d1 d2 d3 where len: "length outs = length ts"
    and d1: "setitem ?d ''genre'' (map (\<lambda>(a, b, c). genre_of_response a) outs) = Inr d1"
    and d2: "setitem d1 ''short_description'' (map (\<lambda>(a, b, c). description_of_response b) outs) = Inr d2"
    and d3: "setitem d2 ''player_mode'' (map (\<lambda>(a, b, c). player_mode_of_response c) outs) = Inr d3"
    and run: "process_dataframe e df w =
               (Inr df,
                w\<lparr>service := m',
                   trace := trace w @ concat (map2 (row_events (api_delay e)) ts outs),
                   frames := (frames w)(df := d3)\<rparr>)"
    by blast
  let ?w' = "w\<lparr>service := m',
                   trace := trace w @ concat (map2 (row_events (api_delay e)) ts outs),
                   frames := (frames w)(df := d3)\<rparr>"
  from assms(1) have n: "length (rows ?d) = length ts" by (metis length_map)
  have written: "case outs ! i of (r1, r2, r3) \<Rightarrow>
                 getitem (columns (frames ?w' df)) (rows (frames ?w' df) ! i) ''genre''
                   = Inr (genre_of_response r1)
               \<and> getitem (columns (frames ?w' df)) (rows (frames ?w' df) ! i) ''short_description''
                   = Inr (description_of_response r2)
               \<and> getitem (columns (frames ?w' df)) (rows (frames ?w' df) ! i) ''player_mode''
                   = Inr (player_mode_of_response r3)" if i: "i < length (rows ?d)" for i
  proof -
    from i n len have io: "i < length outs" by simp
    show ?thesis
      by (simp add: final_cells [OF d1 d2 d3 assms(2) i] io split: prod.splits)
  qed
  have kept: "getitem (columns (frames ?w' df)) (rows (frames ?w' df) ! i) k
                   = getitem (columns ?d) (rows ?d ! i) k"
    if "i < length (rows ?d)" and "k \<notin> {''genre'', ''short_description'', ''player_mode''}"
    for i k
    using that by (simp add: final_cells [OF d1 d2 d3 assms(2)])
  have labels: "set (columns (frames ?w' df))
               = set (columns ?d) \<union> {''genre'', ''short_description'', ''player_mode''}"
    using final_labels [OF d1 d2 d3] by simp
  have other: "\<forall>r. r \<noteq> df \<longrightarrow> frames ?w' r = frames w r" by simp
  have rowcount: "length (rows (frames ?w' df)) = length (rows ?d)"
    using final_columns(2) [OF d1 d2 d3] by simp
  have pre: "prefix (columns ?d) (columns (frames ?w' df))"
    using final_columns(1) [OF d1 d2 d3] by simp
  have tr: "trace ?w' = trace w @ concat (map2 (row_events (api_delay e)) ts outs)"
    by simp
  have cells: "\<forall>i<length (rows ?d). case outs ! i of (r1, r2, r3) \<Rightarrow>
                 getitem (columns (frames ?w' df)) (rows (frames ?w' df) ! i) ''genre''
                   = Inr (genre_of_response r1)
               \<and> getitem (columns (frames ?w' df)) (rows (frames ?w' df) ! i) ''short_description''
                   = Inr (description_of_response r2)
               \<and> getitem (columns (frames ?w' df)) (rows (frames ?w' df) ! i) ''player_mode''
                   = Inr (player_mode_of_response r3)"
    using written by (intro allI impI)
  have rest: "\<forall>i<length (rows ?d). \<forall>k.
                 k \<notin> {''genre'', ''short_description'', ''player_mode''} \<longrightarrow>
                 getitem (columns (frames ?w' df)) (rows (frames ?w' df) ! i) k
                   = getitem (columns ?d) (rows ?d ! i) k"
    using kept by (intro allI impI)
  show ?thesis
    by (rule exI [of _ outs], rule exI [of _ ?w'])
      (intro conjI run len tr labels cells other rowcount pre rest)
qed

text \<open>
  Claim C8: on a frame without rows \<open>process_dataframe\<close> returns a frame without rows,
  and neither calls the service nor pauses.
\<close>
theorem empty_frame_no_calls:
  assumes "rows (frames w df) = []"
  shows "\<exists>w'. process_dataframe e df w = (Inr df, w')
           \<and> rows (frames w' df) = []
           \<and> trace w' = trace w \<and> service w' = service w"
  using assms
  by (simp add: process_dataframe_def assign_column_def setitem_def)

lemma chess_titles:
  "map (\<lambda>row. getitem (columns (frames chess_world 0)) row ''game_title'')
     (rows (frames chess_world 0)) = map Inr [''Chess Master 3000'']"
  by code_simp

lemma chess_wf: "wf_frame (frames chess_world 0)"
  by code_simp

text \<open>One row; the stub fails on the description call, the second of the run.\<close>
theorem failed_call_gives_fallback_witness:
  "map (\<lambda>row. getitem (columns (frames chess_world 0)) row ''game_title'')
     (rows (frames chess_world 0)) = map Inr [''Chess Master 3000'']
   \<and> wf_frame (frames chess_world 0)
   \<and> fst (process_dataframe stub_enricher 0 chess_world) = Inr 0
   \<and> trace (snd (process_dataframe stub_enricher 0 chess_world)) ! 2
       = Generate (description_prompt ''Chess Master 3000'') (Inl (ServiceError ''quota''))
   \<and> rows (frames (snd (process_dataframe stub_enricher 0 chess_world)) 0)
       = [[''Chess Master 3000'', ''1999'', ''Strategy'', ''A video game experience.'',
           ''Singleplayer'']]"
proof -
  from failed_call_gives_fallback [OF chess_titles chess_wf, of stub_enricher]
  obtain w' where "process_dataframe stub_enricher 0 chess_world = (Inr 0, w')" by blast
  then have r: "fst (process_dataframe stub_enricher 0 chess_world) = Inr 0" by simp
  have t: "trace (snd (process_dataframe stub_enricher 0 chess_world)) ! 2
       = Generate (description_prompt ''Chess Master 3000'') (Inl (ServiceError ''quota''))"
    by code_simp
  have c: "rows (frames (snd (process_dataframe stub_enricher 0 chess_world)) 0)
       = [[''Chess Master 3000'', ''1999'', ''Strategy'', ''A video game experience.'',
           ''Singleplayer'']]"
    by code_simp
  from chess_titles chess_wf r t c show ?thesis by blast
qed

text \<open>One row with the columns \<open>game_title\<close> and \<open>year\<close>.\<close>
theorem three_columns_appended_witness:
  "map (\<lambda>row. getitem (columns (frames chess_world 0)) row ''game_title'')
     (rows (frames chess_world 0)) = map Inr [''Chess Master 3000'']
   \<and> ''genre'' \<notin> set (columns (frames chess_world 0))
   \<and> ''short_description'' \<notin> set (columns (frames chess_world 0))
   \<and> ''player_mode'' \<notin> set (columns (frames chess_world 0))
   \<and> fst (process_dataframe stub_enricher 0 chess_world) = Inr 0
   \<and> columns (frames (snd (process_dataframe stub_enricher 0 chess_world)) 0)
       = [''game_title'', ''year'', ''genre'', ''short_description'', ''player_mode'']"
proof -
  have f1: "''genre'' \<notin> set (columns (frames chess_world 0))" by code_simp
  have f2: "''short_description'' \<notin> set (columns (frames chess_world 0))" by code_simp
  have f3: "''player_mode'' \<notin> set (columns (frames chess_world 0))" by code_simp
  from three_columns_appended [OF chess_titles f1 f2 f3, of stub_enricher]
  obtain w' where run: "process_dataframe stub_enricher 0 chess_world = (Inr 0, w')"
    and cols: "columns (frames w' 0)
       = columns (frames chess_world 0) @ [''genre'', ''short_description'', ''player_mode'']"
    by blast
  have "columns (frames chess_world 0) = [''game_title'', ''year'']"
    by (simp add: chess_world_def chess_frame_def)
  with run cols have "fst (process_dataframe stub_enricher 0 chess_world) = Inr 0
   \<and> columns (frames (snd (process_dataframe stub_enricher 0 chess_world)) 0)
       = [''game_title'', ''year'', ''genre'', ''short_description'', ''player_mode'']"
    by simp
  with chess_titles f1 f2 f3 show ?thesis by blast
qed

text \<open>
  Claim C5 as stated fails on a frame that has a column \<open>genre\<close> already: that column
  is overwritten where it stands and only two columns are added.
\<close>
theorem existing_genre_column_counterexample:
  "frames genre_world 0
     = \<lparr>columns = [''game_title'', ''genre''], rows = [[''Chess Master 3000'', ''Board'']]\<rparr>
   \<and> map (\<lambda>row. getitem (columns (frames genre_world 0)) row ''game_title'')
     (rows (frames genre_world 0)) = map Inr [''Chess Master 3000'']
   \<and> fst (process_dataframe stub_enricher 0 genre_world) = Inr 0
   \<and> columns (frames (snd (process_dataframe stub_enricher 0 genre_world)) 0)
       = [''game_title'', ''genre'', ''short_description'', ''player_mode'']
   \<and> columns (frames (snd (process_dataframe stub_enricher 0 genre_world)) 0)
       \<noteq> columns (frames genre_world 0) @ [''genre'', ''short_description'', ''player_mode'']
   \<and> rows (frames (snd (process_dataframe stub_enricher 0 genre_world)) 0)
       = [[''Chess Master 3000'', ''Strategy'', ''A video game experience.'', ''Singleplayer'']]"
  by code_simp

text \<open>The run over the one-row frame: six events, the last one a pause.\<close>
theorem calls_and_pauses_in_row_order_witness:
  "map (\<lambda>row. getitem (columns (frames chess_world 0)) row ''game_title'')
     (rows (frames chess_world 0)) = map Inr [''Chess Master 3000'']
   \<and> fst (process_dataframe stub_enricher 0 chess_world) = Inr 0
   \<and> map step_of (trace (snd (process_dataframe stub_enricher 0 chess_world)))
       = row_steps 5 ''Chess Master 3000''
   \<and> last (trace (snd (process_dataframe stub_enricher 0 chess_world))) = Sleep 5"
proof -
  from calls_and_pauses_in_row_order [OF chess_titles, of stub_enricher]
  obtain w' new where run: "process_dataframe stub_enricher 0 chess_world = (Inr 0, w')"
    and tr: "trace w' = trace chess_world @ new"
    and st: "map step_of new = concat (map (row_steps (api_delay stub_enricher)) [''Chess Master 3000''])"
    and la: "last new = Sleep (api_delay stub_enricher)"
    by blast
  have "trace chess_world = []" by (simp add: chess_world_def)
  moreover have "api_delay stub_enricher = 5" by (simp add: stub_enricher_def)
  ultimately have "fst (process_dataframe stub_enricher 0 chess_world) = Inr 0
   \<and> map step_of (trace (snd (process_dataframe stub_enricher 0 chess_world)))
       = row_steps 5 ''Chess Master 3000''
   \<and> last (trace (snd (process_dataframe stub_enricher 0 chess_world))) = Sleep 5"
    using run tr st la by simp
  with chess_titles show ?thesis by blast
qed

text \<open>
  A run on reference 0: the frame behind it has the three columns and their values
  afterwards, and the frame behind reference 1 is untouched.
\<close>
theorem frame_updated_in_place_witness:
  "map (\<lambda>row. getitem (columns (frames chess_world 0)) row ''game_title'')
     (rows (frames chess_world 0)) = map Inr [''Chess Master 3000'']
   \<and> wf_frame (frames chess_world 0)
   \<and> fst (process_dataframe stub_enricher 0 chess_world) = Inr 0
   \<and> set (columns (frames (snd (process_dataframe stub_enricher 0 chess_world)) 0))
       = set [''game_title'', ''year''] \<union> {''genre'', ''short_description'', ''player_mode''}
   \<and> frames (snd (process_dataframe stub_enricher 0 chess_world)) 1 = frames chess_world 1
   \<and> length (rows (frames (snd (process_dataframe stub_enricher 0 chess_world)) 0)) = 1
   \<and> frames (snd (process_dataframe stub_enricher 0 chess_world)) 0
       = \<lparr>columns = [''game_title'', ''year'', ''genre'', ''short_description'', ''player_mode''],
          rows = [[''Chess Master 3000'', ''1999'', ''Strategy'', ''A video game experience.'',
                   ''Singleplayer'']]\<rparr>"
proof -
  from frame_updated_in_place [OF chess_titles chess_wf, of stub_enricher]
  obtain w' where run: "process_dataframe stub_enricher 0 chess_world = (Inr 0, w')"
    and labels: "set (columns (frames w' 0))
       = set (columns (frames chess_world 0)) \<union> {''genre'', ''short_description'', ''player_mode''}"
    and other: "\<forall>r. r \<noteq> 0 \<longrightarrow> frames w' r = frames chess_world r"
    and len: "length (rows (frames w' 0)) = length (rows (frames chess_world 0))"
    by (elim exE conjE) (rule that)
  have c: "columns (frames chess_world 0) = [''game_title'', ''year'']"
    and l: "length (rows (frames chess_world 0)) = 1"
    by (simp_all add: chess_world_def chess_frame_def)
  from run labels other len have r: "fst (process_dataframe stub_enricher 0 chess_world) = Inr 0
   \<and> set (columns (frames (snd (process_dataframe stub_enricher 0 chess_world)) 0))
       = set [''game_title'', ''year''] \<union> {''genre'', ''short_description'', ''player_mode''}
   \<and> frames (snd (process_dataframe stub_enricher 0 chess_world)) 1 = frames chess_world 1
   \<and> length (rows (frames (snd (process_dataframe stub_enricher 0 chess_world)) 0)) = 1"
    by (simp add: c l)
  have v: "frames (snd (process_dataframe stub_enricher 0 chess_world)) 0
       = \<lparr>columns = [''game_title'', ''year'', ''genre'', ''short_description'', ''player_mode''],
          rows = [[''Chess Master 3000'', ''1999'', ''Strategy'', ''A video game experience.'',
                   ''Singleplayer'']]\<rparr>"
    by code_simp
  from chess_titles chess_wf r v show ?thesis by blast
qed

text \<open>
  Claim C7 as stated fails: after the run the frame behind the reference passed in has
  five columns, where it had two.
\<close>
theorem input_frame_mutated_counterexample:
  "fst (process_dataframe stub_enricher 0 chess_world) = Inr 0
   \<and> frames chess_world 0
       = \<lparr>columns = [''game_title'', ''year''], rows = [[''Chess Master 3000'', ''1999'']]\<rparr>
   \<and> frames (snd (process_dataframe stub_enricher 0 chess_world)) 0
       = \<lparr>columns = [''game_title'', ''year'', ''genre'', ''short_description'', ''player_mode''],
          rows = [[''Chess Master 3000'', ''1999'', ''Strategy'', ''A video game experience.'',
                   ''Singleplayer'']]\<rparr>
   \<and> frames (snd (process_dataframe stub_enricher 0 chess_world)) 0 \<noteq> frames chess_world 0"
  by code_simp

text \<open>A frame with the column \<open>game_title\<close> and no row.\<close>
theorem empty_frame_no_calls_witness:
  "rows (frames empty_world 0) = []
   \<and> fst (process_dataframe stub_enricher 0 empty_world) = Inr 0
   \<and> rows (frames (snd (process_dataframe stub_enricher 0 empty_world)) 0) = []
   \<and> trace (snd (process_dataframe stub_enricher 0 empty_world)) = []"
proof -
  have h: "rows (frames empty_world 0) = []" by (simp add: empty_world_def empty_frame_def)
  from empty_frame_no_calls [OF h, of stub_enricher]
  obtain w' where "process_dataframe stub_enricher 0 empty_world = (Inr 0, w')"
    and "rows (frames w' 0) = []" and "trace w' = trace empty_world"
    by blast
  moreover have "trace empty_world = []" by (simp add: empty_world_def)
  ultimately have "fst (process_dataframe stub_enricher 0 empty_world) = Inr 0
   \<and> rows (frames (snd (process_dataframe stub_enricher 0 empty_world)) 0) = []
   \<and> trace (snd (process_dataframe stub_enricher 0 empty_world)) = []"
    by simp
  with h show ?thesis by blast
qed

end
